theory Spec2Isabelle
  imports Main
begin

section \<open>Strings\<close>

text \<open>
  A Python \<open>str\<close> is a sequence of Unicode code points, and \<open>len\<close>, indexing, slicing
  and \<open>rfind\<close> count code points. The full-width terminators of the sentence trimmer lie
  outside the 8-bit \<^typ>\<open>char\<close>, so a string is modelled as the list of its code points.
\<close>

type_synonym ustring = "nat list"

definition ascii :: "string \<Rightarrow> ustring" where
  "ascii cs = map of_char cs"

text \<open>
  \<open>str.isspace\<close> for one code point: the white-space characters that \<open>str.strip\<close> and
  \<open>str.rstrip\<close> (called without argument) remove.
\<close>

definition isspace :: "nat \<Rightarrow> bool" where
  "isspace c \<longleftrightarrow>
     (9 \<le> c \<and> c \<le> 13) \<or> (28 \<le> c \<and> c \<le> 32) \<or> c = 133 \<or> c = 160 \<or> c = 5760 \<or>
     (8192 \<le> c \<and> c \<le> 8202) \<or> c = 8232 \<or> c = 8233 \<or> c = 8239 \<or> c = 8287 \<or> c = 12288"

definition rstrip :: "ustring \<Rightarrow> ustring" where
  "rstrip s = rev (dropWhile isspace (rev s))"

definition lstrip :: "ustring \<Rightarrow> ustring" where
  "lstrip s = dropWhile isspace s"

definition strip :: "ustring \<Rightarrow> ustring" where
  "strip s = lstrip (rstrip s)"

text \<open>
  \<open>s.rfind(c)\<close> for a one-character \<open>c\<close>: the highest index at which \<open>c\<close> occurs in
  \<open>s\<close>, or \<open>-1\<close>. The last occurrence in \<open>x # xs\<close> is the last occurrence in \<open>xs\<close>, one
  further to the right, when there is one; otherwise it is the head, when the head is \<open>c\<close>.
\<close>

fun rfind :: "ustring \<Rightarrow> nat \<Rightarrow> int" where
  "rfind [] c = - 1"
| "rfind (x # xs) c =
     (let r = rfind xs c in if r \<noteq> - 1 then r + 1 else if x = c then 0 else - 1)"

section \<open>Sentence trimmer\<close>

text \<open>
  \<^verbatim>\<open>punctuation = ".!?\<dots>"\<close>: full stop, exclamation mark, question mark, then the
  ideographic full stop U+3002, the full-width exclamation mark U+FF01 and the full-width
  question mark U+FF1F.
\<close>

definition punctuation :: ustring where
  "punctuation = [46, 33, 63, 12290, 65281, 65311]"

definition terminators :: "bool \<Rightarrow> ustring" where
  "terminators include_newline = (if include_newline then punctuation @ [10] else punctuation)"

text \<open>
  The loop \<^verbatim>\<open>for char in terminators\<close>: \<open>last_index\<close> starts at \<open>-1\<close> and is replaced by
  every larger \<open>rfind\<close> result.
\<close>

definition find_last_index :: "ustring \<Rightarrow> ustring \<Rightarrow> int" where
  "find_last_index input_str ts =
     foldl (\<lambda>last_index char.
              let index = rfind input_str char in
              if index > last_index then index else last_index) (- 1) ts"

definition trim_to_end_sentence :: "ustring \<Rightarrow> bool \<Rightarrow> ustring" where
  "trim_to_end_sentence input_str include_newline =
     (let last_index = find_last_index input_str (terminators include_newline) in
      if last_index \<noteq> - 1 then rstrip (take (nat (last_index + 1)) input_str)
      else rstrip input_str)"

definition auto_trim :: "ustring \<Rightarrow> ustring" where
  "auto_trim text = trim_to_end_sentence text False"


section \<open>Python values\<close>

text \<open>
  A Python \<open>float\<close> is an IEEE double: a finite value \<open>m * 2 ^ e\<close> (zero when \<open>m = 0\<close>,
  the flag of \<open>Finite\<close> being the sign bit, which tells \<open>-0.0\<close> from \<open>0.0\<close>), an infinity
  or a NaN. The handler only tests floats for truth and passes them on.
\<close>

datatype pyfloat = Finite bool nat int | Infinite bool | NaN

text \<open>The literal \<open>0.9\<close>: the double nearest to it is \<open>8106479329266893 * 2 ^ (-53)\<close>.\<close>

definition float_0_9 :: pyfloat where
  "float_0_9 = Finite False 8106479329266893 (- 53)"

text \<open>
  What \<open>request.json\<close> holds: the decoded JSON body. A \<open>dict\<close> keeps its keys in
  insertion order and is read with \<open>map_of\<close>.
\<close>

datatype json =
    JNull
  | JBool bool
  | JInt int
  | JFloat pyfloat
  | JStr ustring
  | JArr "json list"
  | JObj "(ustring \<times> json) list"

text \<open>Truth value testing (\<open>not x\<close>, \<open>x and y\<close>, \<open>if x\<close>).\<close>

fun float_truthy :: "pyfloat \<Rightarrow> bool" where
  "float_truthy (Finite _ m _) = (m \<noteq> 0)"
| "float_truthy (Infinite _) = True"
| "float_truthy NaN = True"

fun truthy :: "json \<Rightarrow> bool" where
  "truthy JNull = False"
| "truthy (JBool b) = b"
| "truthy (JInt i) = (i \<noteq> 0)"
| "truthy (JFloat f) = float_truthy f"
| "truthy (JStr s) = (s \<noteq> [])"
| "truthy (JArr xs) = (xs \<noteq> [])"
| "truthy (JObj kvs) = (kvs \<noteq> [])"

text \<open>An optional string (\<open>os.getenv\<close>, a header, an optional field): \<open>None\<close> and \<open>""\<close> are false.\<close>

fun truthy_opt :: "ustring option \<Rightarrow> bool" where
  "truthy_opt None = False"
| "truthy_opt (Some s) = (s \<noteq> [])"

text \<open>
  The exceptions that leave a view function: those that the subscripts and updates of the
  handler can raise, and those that opening and reading the allow-list file can raise
  (\<open>open\<close> on a missing file, on a file without read permission, on a directory, any other
  failure of the operating system, and bytes that are not valid text met while the lines
  are read).
\<close>

datatype pyexc =
    KeyError | IndexError | TypeError | AttributeError
  | FileNotFoundError | PermissionError | IsADirectoryError | OSError | UnicodeDecodeError

text \<open>
  \<open>v[key]\<close> with a string key: a \<open>dict\<close> looks the key up, every other value of a decoded
  JSON body refuses a string subscript.
\<close>

fun getitem_key :: "json \<Rightarrow> ustring \<Rightarrow> pyexc + json" where
  "getitem_key (JObj kvs) k = (case map_of kvs k of None \<Rightarrow> Inl KeyError | Some v \<Rightarrow> Inr v)"
| "getitem_key _ k = Inl TypeError"

text \<open>
  \<open>xs[i]\<close> on a sequence of length \<open>n\<close>: the indices \<open>0 \<dots> n-1\<close> count from the front,
  the indices \<open>-n \<dots> -1\<close> from the back, and every other index raises.
\<close>

definition seq_index :: "'a list \<Rightarrow> int \<Rightarrow> pyexc + 'a" where
  "seq_index xs i =
     (if 0 \<le> i \<and> i < int (length xs) then Inr (xs ! nat i)
      else if i < 0 \<and> - int (length xs) \<le> i then Inr (xs ! nat (int (length xs) + i))
      else Inl IndexError)"

text \<open>
  \<open>v[i]\<close> with an integer subscript: a list gives its element, a string its one-character
  substring; a \<open>dict\<close> decoded from JSON has string keys only, so the key is missing; the
  other values are not subscriptable.
\<close>

fun getitem_index :: "json \<Rightarrow> int \<Rightarrow> pyexc + json" where
  "getitem_index (JArr xs) i = seq_index xs i"
| "getitem_index (JStr s) i = (case seq_index s i of Inl e \<Rightarrow> Inl e | Inr c \<Rightarrow> Inr (JStr [c]))"
| "getitem_index (JObj kvs) i = Inl KeyError"
| "getitem_index _ i = Inl TypeError"

text \<open>\<open>d.get(key, default)\<close> and \<open>d[key] = v\<close> on the entries of a \<open>dict\<close>.\<close>

definition dict_get :: "(ustring \<times> json) list \<Rightarrow> ustring \<Rightarrow> json \<Rightarrow> json" where
  "dict_get kvs k d = (case map_of kvs k of None \<Rightarrow> d | Some v \<Rightarrow> v)"

fun dict_set :: "(ustring \<times> json) list \<Rightarrow> ustring \<Rightarrow> json \<Rightarrow> (ustring \<times> json) list" where
  "dict_set [] k v = [(k, v)]"
| "dict_set ((k', v') # kvs) k v = (if k' = k then (k, v) # kvs else (k', v') # dict_set kvs k v)"

text \<open>
  \<open>old += t\<close> for a string \<open>t\<close>: a string is concatenated, a list is extended by the
  characters of \<open>t\<close>, anything else raises \<open>TypeError\<close>.
\<close>

fun iadd_str :: "json \<Rightarrow> ustring \<Rightarrow> pyexc + json" where
  "iadd_str (JStr s) t = Inr (JStr (s @ t))"
| "iadd_str (JArr xs) t = Inr (JArr (xs @ map (\<lambda>c. JStr [c]) t))"
| "iadd_str _ t = Inl TypeError"

text \<open>\<open>needle in hay\<close> for strings, and \<open>str.lower\<close>.\<close>

fun startswith :: "ustring \<Rightarrow> ustring \<Rightarrow> bool" where
  "startswith hay [] = True"
| "startswith [] (n # ns) = False"
| "startswith (h # hs) (n # ns) = (h = n \<and> startswith hs ns)"

fun str_in :: "ustring \<Rightarrow> ustring \<Rightarrow> bool" where
  "str_in needle [] = (needle = [])"
| "str_in needle (h # hs) = (startswith (h # hs) needle \<or> str_in needle hs)"

text \<open>
  \<open>str.lower\<close> is given on the ASCII letters and leaves every other code point alone.
  Python also lowers cased letters outside ASCII; the only ones whose lower case contains a
  letter of the words searched for below are U+0130, which becomes \<open>i\<close> followed by U+0307,
  and that never completes an occurrence of \<open>quota\<close> or \<open>unauthorized\<close>.
\<close>

definition lower :: "ustring \<Rightarrow> ustring" where
  "lower s = map (\<lambda>c. if 65 \<le> c \<and> c \<le> 90 then c + 32 else c) s"

section \<open>Configuration and upstream\<close>

record config =
  API_ENDPOINT :: ustring
  API_KEY :: "ustring option"
  MODEL :: ustring
  PREFILL_ENABLED :: bool
  AUTO_TRIM :: bool
  ASSISTANT_PREFILL :: ustring

record client =
  api_key :: ustring
  base_url :: ustring

text \<open>\<^verbatim>\<open>get_client\<close>: raises \<open>ValueError\<close> with the message given when no key is configured.\<close>

definition get_client :: "config \<Rightarrow> ustring + client" where
  "get_client cfg =
     (case API_KEY cfg of
        None \<Rightarrow> Inl (ascii ''No API key found in environment variables'')
      | Some k \<Rightarrow>
          if k = [] then Inl (ascii ''No API key found in environment variables'')
          else Inr \<lparr>api_key = k, base_url = API_ENDPOINT cfg\<rparr>)"

text \<open>
  One chunk of a streamed completion, as the loop reads it: \<open>chunk.id\<close>, \<open>chunk.created\<close>,
  \<open>chunk.model\<close> and, of each element of \<open>chunk.choices\<close>, \<open>delta.content\<close> and
  \<open>finish_reason\<close>.
\<close>

record chunk_choice =
  delta_content :: "ustring option"
  finish_reason :: "ustring option"

record chunk =
  chunk_id :: ustring
  chunk_created :: int
  chunk_model :: ustring
  chunk_choices :: "chunk_choice list"

text \<open>
  What iterating over the upstream stream delivers: a chunk, or an exception carrying the
  text \<open>str(error)\<close>, which ends the iteration. An exception at the head of the list is the
  call \<open>create\<close> itself failing.
\<close>

datatype stream_item = Chunk chunk | Raise ustring

text \<open>
  A completed (non-streamed) completion after \<open>model_dump()\<close>: of each choice the content
  of its message, which the client library types as an optional string, and the fields the
  handler passes on untouched. Every choice has a message, a non-empty \<open>dict\<close>, so the test
  \<^verbatim>\<open>result.get("choices") and result["choices"][0].get("message")\<close> asks whether there is
  a choice.
\<close>

record completion_choice =
  message_content :: "ustring option"
  choice_rest :: json

record completion =
  completion_choices :: "completion_choice list"
  completion_rest :: json

text \<open>
  The provider behind \<open>client.chat.completions.create\<close>: given the client and the keyword
  arguments it answers a plain call with a completion or an exception text, and a streamed
  call with the items of the stream.
\<close>

record upstream =
  create_completion :: "client \<Rightarrow> json \<Rightarrow> ustring + completion"
  create_stream :: "client \<Rightarrow> json \<Rightarrow> stream_item list"

section \<open>Stream re-framing\<close>

text \<open>
  The strings that \<^verbatim>\<open>generate_stream\<close> yields: \<open>Data j\<close> is
  \<^verbatim>\<open>"data: " + json.dumps(j) + "\n\n"\<close> and \<open>Done\<close> is \<^verbatim>\<open>"data: [DONE]\n\n"\<close>.
  The payload of a \<open>Data\<close> event is always a \<open>dict\<close>, whose encoding starts with a brace,
  so the two never coincide.
\<close>

datatype wire_event = Data json | Done

definition opt_json :: "ustring option \<Rightarrow> json" where
  "opt_json x = (case x of None \<Rightarrow> JNull | Some s \<Rightarrow> JStr s)"

definition chunk_data :: "chunk \<Rightarrow> chunk_choice \<Rightarrow> ustring \<Rightarrow> json" where
  "chunk_data c ch content =
     JObj [(ascii ''id'', JStr (chunk_id c)),
           (ascii ''object'', JStr (ascii ''chat.completion.chunk'')),
           (ascii ''created'', JInt (chunk_created c)),
           (ascii ''model'', JStr (chunk_model c)),
           (ascii ''choices'',
              JArr [JObj [(ascii ''index'', JInt 0),
                          (ascii ''delta'', JObj [(ascii ''content'', JStr content)]),
                          (ascii ''finish_reason'', opt_json (finish_reason ch))]])]"

text \<open>The \<^verbatim>\<open>except\<close> branch of \<^verbatim>\<open>generate_stream\<close>: one in-band error event.\<close>

definition stream_error :: "ustring \<Rightarrow> wire_event" where
  "stream_error msg =
     (if str_in (ascii ''429'') msg \<or> str_in (ascii ''quota'') (lower msg)
      then Data (JObj [(ascii ''error'', JStr (ascii ''out of quota''))])
      else Data (JObj [(ascii ''error'', JStr (ascii ''request failed: '' @ msg))]))"

text \<open>
  The loop \<^verbatim>\<open>for chunk in stream\<close> inside the \<^verbatim>\<open>try\<close>. \<open>chunk.choices[0]\<close> on an empty
  list raises \<open>IndexError\<close>, which the \<^verbatim>\<open>except\<close> branch reports like any other failure.
\<close>

fun stream_loop :: "stream_item list \<Rightarrow> wire_event list" where
  "stream_loop [] = []"
| "stream_loop (Raise msg # rest) = [stream_error msg]"
| "stream_loop (Chunk c # rest) =
     (case chunk_choices c of
        [] \<Rightarrow> [stream_error (ascii ''list index out of range'')]
      | ch # _ \<Rightarrow>
          (case delta_content ch of
             Some content \<Rightarrow> [Data (chunk_data c ch content)]
           | None \<Rightarrow> [])
          @ (if truthy_opt (finish_reason ch) then [Done] else stream_loop rest))"

definition generate_stream :: "upstream \<Rightarrow> client \<Rightarrow> json \<Rightarrow> wire_event list" where
  "generate_stream up cl kwargs = stream_loop (create_stream up cl kwargs)"


section \<open>The completion handler\<close>

text \<open>
  What a view function hands back to the framework: a JSON body with its status (a
  \<^verbatim>\<open>jsonify(...)\<close> with a code, or a plain \<open>dict\<close>, which is sent with status 200), the
  completion of a plain call, or a \<^verbatim>\<open>Response\<close> around the generator object
  \<^verbatim>\<open>generate_stream(client, **params)\<close>. Calling a generator function runs none of its
  body: the object only holds the arguments, and the body runs when the server iterates
  over the response, after the view function has returned.
\<close>

datatype reply =
    JsonReply nat json
  | CompletionReply completion
  | StreamReply client json

text \<open>What one request does, in order, as far as the lock and the provider are concerned.\<close>

datatype event = LockAcquire | LockRelease | UpstreamBegin | UpstreamEnd | Yield wire_event

definition canned_test :: "config \<Rightarrow> int \<Rightarrow> json" where
  "canned_test cfg now =
     JObj [(ascii ''id'', JStr (ascii ''chatcmpl-test'')),
           (ascii ''object'', JStr (ascii ''chat.completion'')),
           (ascii ''created'', JInt now),
           (ascii ''model'', JStr (MODEL cfg)),
           (ascii ''choices'',
              JArr [JObj [(ascii ''index'', JInt 0),
                          (ascii ''message'',
                             JObj [(ascii ''role'', JStr (ascii ''assistant'')),
                                   (ascii ''content'', JStr (ascii ''TEST''))]),
                          (ascii ''logprobs'', JNull),
                          (ascii ''finish_reason'', JStr (ascii ''stop''))]]),
           (ascii ''usage'',
              JObj [(ascii ''prompt_tokens'', JInt 10),
                    (ascii ''completion_tokens'', JInt 1),
                    (ascii ''total_tokens'', JInt 11)])]"

text \<open>
  The test \<^verbatim>\<open>messages and messages[0]["content"] == "Just say TEST"\<close>; \<open>and\<close> does not
  evaluate its right operand when the left one is false.
\<close>

definition is_test_request :: "json \<Rightarrow> pyexc + bool" where
  "is_test_request messages =
     (if \<not> truthy messages then Inr False
      else case getitem_index messages 0 of
             Inl e \<Rightarrow> Inl e
           | Inr m \<Rightarrow>
               (case getitem_key m (ascii ''content'') of
                  Inl e \<Rightarrow> Inl e
                | Inr c \<Rightarrow> Inr (c = JStr (ascii ''Just say TEST''))))"

text \<open>
  The prefill statement, on the list object \<open>messages\<close>:
  \<^verbatim>\<open>
  if messages[-1]["role"] == "user":
      messages.append({"content": ASSISTANT_PREFILL, "role": "assistant"})
  else:
      messages[-1]["content"] += "\n" + ASSISTANT_PREFILL
  \<close>
  The updates are in place; the model returns the new value of \<open>messages\<close>. A value whose
  last element has a \<open>role\<close> is a list and that element a \<open>dict\<close>, so the two fall-through
  cases are never reached.
\<close>

definition apply_prefill :: "ustring \<Rightarrow> json \<Rightarrow> pyexc + json" where
  "apply_prefill prefill messages =
     (case getitem_index messages (- 1) of
        Inl e \<Rightarrow> Inl e
      | Inr m \<Rightarrow>
          (case getitem_key m (ascii ''role'') of
             Inl e \<Rightarrow> Inl e
           | Inr role \<Rightarrow>
               if role = JStr (ascii ''user'') then
                 (case messages of
                    JArr ms \<Rightarrow>
                      Inr (JArr (ms @ [JObj [(ascii ''content'', JStr prefill),
                                             (ascii ''role'', JStr (ascii ''assistant''))]]))
                  | _ \<Rightarrow> Inl AttributeError)
               else
                 (case getitem_key m (ascii ''content'') of
                    Inl e \<Rightarrow> Inl e
                  | Inr old \<Rightarrow>
                      (case iadd_str old (10 # prefill) of
                         Inl e \<Rightarrow> Inl e
                       | Inr new \<Rightarrow>
                           (case (messages, m) of
                              (JArr ms, JObj d) \<Rightarrow>
                                Inr (JArr (butlast ms @ [JObj (dict_set d (ascii ''content'') new)]))
                            | _ \<Rightarrow> Inl TypeError)))))"

definition shape_messages :: "config \<Rightarrow> json \<Rightarrow> pyexc + json" where
  "shape_messages cfg messages =
     (if PREFILL_ENABLED cfg then apply_prefill (ASSISTANT_PREFILL cfg) messages
      else Inr messages)"

definition make_params :: "config \<Rightarrow> (ustring \<times> json) list \<Rightarrow> json \<Rightarrow> json" where
  "make_params cfg body messages =
     JObj [(ascii ''messages'', messages),
           (ascii ''model'', dict_get body (ascii ''model'') (JStr (MODEL cfg))),
           (ascii ''temperature'', dict_get body (ascii ''temperature'') (JFloat float_0_9)),
           (ascii ''max_tokens'', dict_get body (ascii ''max_tokens'') (JInt 2048)),
           (ascii ''stream'', dict_get body (ascii ''stream'') (JBool False)),
           (ascii ''top_p'', dict_get body (ascii ''top_p'') (JFloat float_0_9))]"

text \<open>The \<^verbatim>\<open>except Exception\<close> branch of the handler, on \<open>str(error)\<close>.\<close>

definition error_reply :: "ustring \<Rightarrow> reply" where
  "error_reply msg =
     (if str_in (ascii ''429'') msg \<or> str_in (ascii ''quota'') (lower msg) then
        JsonReply 429 (JObj [(ascii ''status'', JBool False),
                             (ascii ''error'', JStr (ascii ''out of quota''))])
      else if str_in (ascii ''401'') msg \<or> str_in (ascii ''unauthorized'') (lower msg) then
        JsonReply 401 (JObj [(ascii ''status'', JBool False),
                             (ascii ''error'', JStr (ascii ''Unauthorized - check your API key''))])
      else JsonReply 500 (JObj [(ascii ''error'', JStr msg)]))"

text \<open>
  Auto-trimming of a plain completion: the content of the first choice's message is
  replaced by its trimmed text. A content of \<open>None\<close> has no \<open>rfind\<close>, and the
  \<open>AttributeError\<close> is caught like a failure of the call; its text is that of the
  exception, with the apostrophe written as code point 39.
\<close>

definition none_has_no_rfind :: ustring where
  "none_has_no_rfind =
     [39] @ ascii ''NoneType'' @ [39] @ ascii '' object has no attribute '' @ [39]
     @ ascii ''rfind'' @ [39]"

definition trim_completion :: "config \<Rightarrow> completion \<Rightarrow> ustring + completion" where
  "trim_completion cfg result =
     (if AUTO_TRIM cfg then
        (case completion_choices result of
           [] \<Rightarrow> Inr result
         | ch # chs \<Rightarrow>
             (case message_content ch of
                None \<Rightarrow> Inl none_has_no_rfind
              | Some text \<Rightarrow>
                  Inr (result\<lparr>completion_choices :=
                                ch\<lparr>message_content := Some (auto_trim text)\<rparr> # chs\<rparr>)))
      else Inr result)"

text \<open>
  The body of \<^verbatim>\<open>with completion_lock:\<close>. It returns what the provider was asked while the
  body ran (the events of a plain call, nothing for a streamed one, whose generator has not
  started) and the value returned or the exception raised. Once the subscript
  \<^verbatim>\<open>request.json["messages"]\<close> has succeeded the body is a \<open>dict\<close>, so the last case, a
  \<open>get\<close> on another value, is never reached.
\<close>

definition normal_operation_body ::
  "config \<Rightarrow> upstream \<Rightarrow> int \<Rightarrow> json \<Rightarrow> event list \<times> (pyexc + reply)" where
  "normal_operation_body cfg up now request_json =
     (if \<not> truthy request_json then
        ([], Inr (JsonReply 400 (JObj [(ascii ''error'', JBool True)])))
      else case getitem_key request_json (ascii ''messages'') of
        Inl e \<Rightarrow> ([], Inl e)
      | Inr messages \<Rightarrow>
          (case is_test_request messages of
             Inl e \<Rightarrow> ([], Inl e)
           | Inr True \<Rightarrow> ([], Inr (JsonReply 200 (canned_test cfg now)))
           | Inr False \<Rightarrow>
               if \<not> truthy_opt (API_KEY cfg) then
                 ([], Inr (JsonReply 401
                    (JObj [(ascii ''error'',
                            JStr (ascii ''No API key found in environment variables''))])))
               else
                 (case shape_messages cfg messages of
                    Inl e \<Rightarrow> ([], Inl e)
                  | Inr messages' \<Rightarrow>
                      (case request_json of
                         JObj body \<Rightarrow>
                           (let is_streaming = dict_get body (ascii ''stream'') (JBool False);
                                params = make_params cfg body messages'
                            in case get_client cfg of
                                 Inl msg \<Rightarrow> ([], Inr (error_reply msg))
                               | Inr cl \<Rightarrow>
                                   if truthy is_streaming then ([], Inr (StreamReply cl params))
                                   else
                                     (case create_completion up cl params of
                                        Inl msg \<Rightarrow>
                                          ([UpstreamBegin, UpstreamEnd], Inr (error_reply msg))
                                      | Inr result \<Rightarrow>
                                          (case trim_completion cfg result of
                                             Inl msg \<Rightarrow>
                                               ([UpstreamBegin, UpstreamEnd],
                                                Inr (error_reply msg))
                                           | Inr result' \<Rightarrow>
                                               ([UpstreamBegin, UpstreamEnd],
                                                Inr (CompletionReply result')))))
                       | _ \<Rightarrow> ([], Inl AttributeError)))))"

text \<open>
  \<^verbatim>\<open>normal_operation\<close>: the lock is acquired on entry to the \<^verbatim>\<open>with\<close> block and released
  when the block is left, by \<^verbatim>\<open>return\<close> or by an exception.
\<close>

definition normal_operation ::
  "config \<Rightarrow> upstream \<Rightarrow> int \<Rightarrow> json \<Rightarrow> event list \<times> (pyexc + reply)" where
  "normal_operation cfg up now request_json =
     (case normal_operation_body cfg up now request_json of
        (evs, res) \<Rightarrow> (LockAcquire # evs @ [LockRelease], res))"

text \<open>
  Sending the reply. The server iterates over the body of a streamed response; the first
  step starts the generator, whose first statement is the call to the provider, and every
  further step resumes it until it ends. The other replies are complete values.
\<close>

definition send_reply :: "upstream \<Rightarrow> reply \<Rightarrow> event list" where
  "send_reply up r =
     (case r of
        StreamReply cl params \<Rightarrow>
          UpstreamBegin # map Yield (generate_stream up cl params) @ [UpstreamEnd]
      | _ \<Rightarrow> [])"

definition serve :: "config \<Rightarrow> upstream \<Rightarrow> int \<Rightarrow> json \<Rightarrow> event list" where
  "serve cfg up now request_json =
     (case normal_operation cfg up now request_json of
        (evs, Inr r) \<Rightarrow> evs @ send_reply up r
      | (evs, Inl e) \<Rightarrow> evs)"

section \<open>The authenticated entry point\<close>

text \<open>
  The set comprehension \<^verbatim>\<open>{line.strip() for line in f if line.strip()}\<close> over the lines of
  the allow-list file.
\<close>

definition allowed_tokens :: "ustring list \<Rightarrow> ustring set" where
  "allowed_tokens file_lines = set (map strip (filter (\<lambda>line. strip line \<noteq> []) file_lines))"

text \<open>
  The checks of \<^verbatim>\<open>generate\<close> before its last line. \<open>user_token\<close> is the \<open>Authorization\<close>
  header (\<open>None\<close> when the request has none). \<open>whitelist\<close> is what the statement
  \<^verbatim>\<open>
  with open('whitelist_token.txt') as f:
      allowed_tokens = {line.strip() for line in f if line.strip()}
  \<close>
  meets: the lines of the file, or the exception that \<open>open\<close> or the reading of a line
  raises. The \<^verbatim>\<open>except FileNotFoundError\<close> clause answers that one exception; every other
  one leaves the view function. The result is the exception that leaves it, the reply that
  turns the request away, or \<open>None\<close> when the request goes on.
\<close>

definition generate_checks ::
  "ustring option \<Rightarrow> pyexc + ustring list \<Rightarrow> pyexc + reply option" where
  "generate_checks user_token whitelist =
     (if \<not> truthy_opt user_token then
        Inr (Some (JsonReply 401
               (JObj [(ascii ''error'', JStr (ascii ''No API key provided''))])))
      else case whitelist of
        Inl e \<Rightarrow>
          if e = FileNotFoundError then
            Inr (Some (JsonReply 500
                   (JObj [(ascii ''error'',
                           JStr (ascii ''Server misconfiguration: whitelist file missing''))])))
          else Inl e
      | Inr file_lines \<Rightarrow>
          if user_token \<notin> Some ` allowed_tokens file_lines then
            Inr (Some (JsonReply 401
                   (JObj [(ascii ''error'', JStr (ascii ''Unauthorized - invalid API key''))])))
          else Inr None)"

definition generate ::
  "config \<Rightarrow> upstream \<Rightarrow> int \<Rightarrow> ustring option \<Rightarrow> pyexc + ustring list \<Rightarrow> json \<Rightarrow>
   event list \<times> (pyexc + reply)" where
  "generate cfg up now user_token whitelist request_json =
     (case generate_checks user_token whitelist of
        Inl e \<Rightarrow> ([], Inl e)
      | Inr (Some r) \<Rightarrow> ([], Inr r)
      | Inr None \<Rightarrow> normal_operation cfg up now request_json)"


section \<open>The specification's reading of the components\<close>

text \<open>
  The sentence trimmer as the specification words it: scan the whole string for the highest
  index at which any terminator occurs; cut after it when there is one; remove trailing
  white space in either case.
\<close>

definition last_terminator_index :: "ustring \<Rightarrow> bool \<Rightarrow> nat option" where
  "last_terminator_index s include_newline =
     (case filter (\<lambda>i. s ! i \<in> set (terminators include_newline)) (rev [0..<length s]) of
        [] \<Rightarrow> None
      | i # _ \<Rightarrow> Some i)"

definition trim_spec :: "ustring \<Rightarrow> bool \<Rightarrow> ustring" where
  "trim_spec s include_newline =
     (case last_terminator_index s include_newline of
        Some i \<Rightarrow> rstrip (take (Suc i) s)
      | None \<Rightarrow> rstrip s)"

text \<open>
  The stream chunk of the specification's data model has one delta content and one finish
  reason, both optional, the finish reason being one of the provider's names when present:
  in the terms of the client library, a chunk with a first choice whose finish reason is
  not the empty string.
\<close>

definition first_choice :: "chunk \<Rightarrow> chunk_choice option" where
  "first_choice c = (case chunk_choices c of [] \<Rightarrow> None | ch # _ \<Rightarrow> Some ch)"

definition stream_chunk :: "chunk \<Rightarrow> bool" where
  "stream_chunk c =
     (case first_choice c of None \<Rightarrow> False | Some ch \<Rightarrow> finish_reason ch \<noteq> Some [])"

definition has_finish_reason :: "chunk \<Rightarrow> bool" where
  "has_finish_reason c =
     (case first_choice c of None \<Rightarrow> False | Some ch \<Rightarrow> finish_reason ch \<noteq> None)"

text \<open>
  The content-delta event of the specification: an event carrying the chunk's \<open>id\<close>, the
  object name \<open>chat.completion.chunk\<close>, the chunk's \<open>created\<close> and \<open>model\<close>, and one choice
  with index 0, the delta \<open>{content}\<close> and the chunk's finish reason (\<open>null\<close> when it has
  none).
\<close>

definition delta_event ::
  "ustring \<Rightarrow> int \<Rightarrow> ustring \<Rightarrow> ustring \<Rightarrow> ustring option \<Rightarrow> wire_event" where
  "delta_event cid created model content fin =
     Data (JObj
       [(ascii ''id'', JStr cid),
        (ascii ''object'', JStr (ascii ''chat.completion.chunk'')),
        (ascii ''created'', JInt created),
        (ascii ''model'', JStr model),
        (ascii ''choices'',
           JArr [JObj [(ascii ''index'', JInt 0),
                       (ascii ''delta'', JObj [(ascii ''content'', JStr content)]),
                       (ascii ''finish_reason'',
                          (case fin of None \<Rightarrow> JNull | Some reason \<Rightarrow> JStr reason))]])])"

text \<open>One content-delta event for a chunk whose delta content is present, none otherwise.\<close>

definition content_delta :: "chunk \<Rightarrow> wire_event list" where
  "content_delta c =
     (case first_choice c of
        None \<Rightarrow> []
      | Some ch \<Rightarrow>
          (case delta_content ch of
             None \<Rightarrow> []
           | Some content \<Rightarrow>
               [delta_event (chunk_id c) (chunk_created c) (chunk_model c) content
                  (finish_reason ch)]))"

definition content_deltas :: "chunk list \<Rightarrow> wire_event list" where
  "content_deltas cs = concat (map content_delta cs)"

text \<open>Reading a field of a reply body: a path of subscripts.\<close>

datatype subscript = Key ustring | Index int

fun json_at :: "json \<Rightarrow> subscript list \<Rightarrow> pyexc + json" where
  "json_at j [] = Inr j"
| "json_at j (Key k # ks) = (case getitem_key j k of Inl e \<Rightarrow> Inl e | Inr v \<Rightarrow> json_at v ks)"
| "json_at j (Index i # ks) = (case getitem_index j i of Inl e \<Rightarrow> Inl e | Inr v \<Rightarrow> json_at v ks)"

section \<open>Concurrent requests\<close>

text \<open>
  A schedule interleaves the events of several request threads. Replaying it checks the
  lock (a thread acquires it only when it is free and releases it only when it owns it) and
  counts the exchanges with the provider that are in flight; the result is the largest
  count reached, or \<open>None\<close> when the schedule is not one the lock allows.
\<close>

type_synonym schedule = "(nat \<times> event) list"

definition thread_events :: "nat \<Rightarrow> schedule \<Rightarrow> event list" where
  "thread_events t s = map snd (filter (\<lambda>te. fst te = t) s)"

fun replay :: "nat option \<Rightarrow> nat \<Rightarrow> nat \<Rightarrow> schedule \<Rightarrow> nat option" where
  "replay owner n peak [] = Some peak"
| "replay owner n peak ((t, LockAcquire) # s) =
     (if owner = None then replay (Some t) n peak s else None)"
| "replay owner n peak ((t, LockRelease) # s) =
     (if owner = Some t then replay None n peak s else None)"
| "replay owner n peak ((t, UpstreamBegin) # s) = replay owner (Suc n) (max peak (Suc n)) s"
| "replay owner n peak ((t, UpstreamEnd) # s) = replay owner (n - 1) peak s"
| "replay owner n peak ((t, Yield w) # s) = replay owner n peak s"

section \<open>Example inputs\<close>

definition example_config :: config where
  "example_config =
     \<lparr>API_ENDPOINT = ascii ''https://openrouter.ai/api/v1'', API_KEY = Some (ascii ''sk-test''),
      MODEL = ascii ''gpt-3.5-turbo'', PREFILL_ENABLED = False, AUTO_TRIM = True,
      ASSISTANT_PREFILL = ascii ''Here is my response:''\<rparr>"

definition prefill_config :: config where
  "prefill_config = example_config\<lparr>PREFILL_ENABLED := True\<rparr>"

definition example_client :: client where
  "example_client = \<lparr>api_key = ascii ''sk-test'', base_url = ascii ''https://openrouter.ai/api/v1''\<rparr>"

definition mk_chunk :: "ustring option \<Rightarrow> ustring option \<Rightarrow> chunk" where
  "mk_chunk content fin =
     \<lparr>chunk_id = ascii ''chatcmpl-1'', chunk_created = 0, chunk_model = ascii ''gpt-3.5-turbo'',
      chunk_choices = [\<lparr>delta_content = content, finish_reason = fin\<rparr>]\<rparr>"

definition chunk_a :: chunk where
  "chunk_a = mk_chunk (Some (ascii ''a'')) None"

definition chunk_b :: chunk where
  "chunk_b = mk_chunk (Some (ascii ''b'')) (Some (ascii ''stop''))"

text \<open>The wire events for the two chunks, written out.\<close>

definition delta_a :: wire_event where
  "delta_a =
     Data (JObj
       [(ascii ''id'', JStr (ascii ''chatcmpl-1'')),
        (ascii ''object'', JStr (ascii ''chat.completion.chunk'')),
        (ascii ''created'', JInt 0),
        (ascii ''model'', JStr (ascii ''gpt-3.5-turbo'')),
        (ascii ''choices'',
           JArr [JObj [(ascii ''index'', JInt 0),
                       (ascii ''delta'', JObj [(ascii ''content'', JStr (ascii ''a''))]),
                       (ascii ''finish_reason'', JNull)]])])"

definition delta_b :: wire_event where
  "delta_b =
     Data (JObj
       [(ascii ''id'', JStr (ascii ''chatcmpl-1'')),
        (ascii ''object'', JStr (ascii ''chat.completion.chunk'')),
        (ascii ''created'', JInt 0),
        (ascii ''model'', JStr (ascii ''gpt-3.5-turbo'')),
        (ascii ''choices'',
           JArr [JObj [(ascii ''index'', JInt 0),
                       (ascii ''delta'', JObj [(ascii ''content'', JStr (ascii ''b''))]),
                       (ascii ''finish_reason'', JStr (ascii ''stop''))]])])"

text \<open>
  A provider that streams the two chunks and refuses plain calls, one that fails, and one
  whose stream goes on after the chunk with the finish reason.
\<close>

definition example_upstream :: upstream where
  "example_upstream =
     \<lparr>create_completion = (\<lambda>cl kwargs. Inl (ascii ''unavailable'')),
      create_stream = (\<lambda>cl kwargs. [Chunk chunk_a, Chunk chunk_b])\<rparr>"

definition failing_upstream :: upstream where
  "failing_upstream =
     \<lparr>create_completion = (\<lambda>cl kwargs. Inl (ascii ''boom'')),
      create_stream = (\<lambda>cl kwargs. [Raise (ascii ''boom'')])\<rparr>"

definition trailing_upstream :: upstream where
  "trailing_upstream =
     \<lparr>create_completion = (\<lambda>cl kwargs. Inl (ascii ''unavailable'')),
      create_stream = (\<lambda>cl kwargs.
        [Chunk chunk_a, Chunk chunk_b, Chunk chunk_a, Raise (ascii ''late'')])\<rparr>"

definition user_hi :: json where
  "user_hi = JObj [(ascii ''role'', JStr (ascii ''user'')), (ascii ''content'', JStr (ascii ''hi''))]"

definition streaming_request :: json where
  "streaming_request = JObj [(ascii ''messages'', JArr [user_hi]), (ascii ''stream'', JBool True)]"

text \<open>
  Two threads serving \<open>streaming_request\<close>: the second enters and leaves the handler after
  the first has left it, and the two responses are then sent side by side.
\<close>

definition two_streams :: schedule where
  "two_streams =
     [(0, LockAcquire), (0, LockRelease), (1, LockAcquire), (1, LockRelease),
      (0, UpstreamBegin), (1, UpstreamBegin),
      (0, Yield delta_a), (1, Yield delta_a), (0, Yield delta_b), (1, Yield delta_b),
      (0, Yield Done), (1, Yield Done), (0, UpstreamEnd), (1, UpstreamEnd)]"

section \<open>Facts about strings\<close>

lemma ascii_eq_iff [simp]: "ascii a = ascii b \<longleftrightarrow> a = b"
  unfolding ascii_def by (rule inj_map_eq_map) (simp add: inj_on_def)

lemma ascii_Nil [simp]: "ascii [] = []" "ascii s = [] \<longleftrightarrow> s = []" "[] = ascii s \<longleftrightarrow> s = []"
  by (auto simp: ascii_def)

lemma rstrip_idem: "rstrip (rstrip s) = rstrip s"
  by (simp add: rstrip_def)

lemma set_rstrip: "set (rstrip s) \<subseteq> set s"
  by (auto simp: rstrip_def dest: set_dropWhileD)

lemma rstrip_last_nonspace: "s \<noteq> [] \<Longrightarrow> \<not> isspace (last s) \<Longrightarrow> rstrip s = s"
  by (cases s rule: rev_cases) (simp_all add: rstrip_def)

lemma punctuation_not_space: "c \<in> set punctuation \<Longrightarrow> \<not> isspace c"
  by (auto simp: punctuation_def isspace_def)

subsection \<open>\<open>rfind\<close> finds the last occurrence\<close>

lemma rfind_notin: "c \<notin> set s \<Longrightarrow> rfind s c = - 1"
  by (induction s) (auto simp: Let_def)

lemma rfind_in:
  "c \<in> set s \<Longrightarrow>
     \<exists>i<length s. rfind s c = int i \<and> s ! i = c \<and> (\<forall>j<length s. i < j \<longrightarrow> s ! j \<noteq> c)"
proof (induction s)
  case Nil
  then show ?case by simp
next
  case (Cons x xs)
  show ?case
  proof (cases "c \<in> set xs")
    case True
    with Cons.IH obtain i where i: "i < length xs" "rfind xs c = int i" "xs ! i = c"
      "\<forall>j<length xs. i < j \<longrightarrow> xs ! j \<noteq> c" by blast
    have "rfind (x # xs) c = int (Suc i)" using i(2) by (simp add: Let_def)
    moreover have "\<forall>j<length (x # xs). Suc i < j \<longrightarrow> (x # xs) ! j \<noteq> c"
      using i(4) by (auto simp: nth_Cons split: nat.splits)
    ultimately show ?thesis using i(1,3) by (intro exI[of _ "Suc i"]) simp
  next
    case False
    then have "x = c" using Cons.prems by simp
    moreover have "rfind xs c = - 1" using False by (rule rfind_notin)
    ultimately have "rfind (x # xs) c = int 0" by (simp add: Let_def)
    moreover have "\<forall>j<length (x # xs). 0 < j \<longrightarrow> (x # xs) ! j \<noteq> c"
      using False by (auto simp: nth_Cons split: nat.splits)
    ultimately show ?thesis using \<open>x = c\<close> by (intro exI[of _ 0]) simp
  qed
qed

section \<open>The sentence trimmer\<close>

subsection \<open>The loop computes a maximum\<close>

lemma foldl_max_Max:
  "foldl (\<lambda>a c. max a (f c)) (a0::int) ts = Max (insert a0 (f ` set ts))"
proof (induction ts arbitrary: a0)
  case Nil
  then show ?case by simp
next
  case (Cons t ts)
  have "Max (insert (max a0 (f t)) (f ` set ts)) = Max (insert a0 (insert (f t) (f ` set ts)))"
    by (cases "set ts = {}") (simp_all add: max.assoc)
  moreover have "foldl (\<lambda>a c. max a (f c)) a0 (t # ts) = foldl (\<lambda>a c. max a (f c)) (max a0 (f t)) ts"
    by simp
  ultimately show ?case using Cons.IH[of "max a0 (f t)"] by simp
qed

lemma find_last_index_Max:
  "find_last_index s ts = Max (insert (- 1) ((rfind s) ` set ts))"
proof -
  have "(\<lambda>last_index char. let index = rfind s char in if index > last_index then index else last_index)
        = (\<lambda>a c. max a (rfind s c))"
    by (intro ext) (simp add: Let_def max_def)
  then show ?thesis unfolding find_last_index_def by (simp only: foldl_max_Max)
qed

lemma find_last_index_none:
  assumes "\<forall>c\<in>set ts. c \<notin> set s"
  shows "find_last_index s ts = - 1"
proof -
  have "rfind s ` set ts \<subseteq> {- 1}" using assms rfind_notin by auto
  then have "insert (- 1) (rfind s ` set ts) = {- 1}" by auto
  then have "Max (insert (- 1) (rfind s ` set ts)) = Max {- 1}" by (simp only:)
  then show ?thesis by (simp add: find_last_index_Max)
qed

lemma find_last_index_some:
  assumes i: "i < length s" "s ! i \<in> set ts" "\<forall>j<length s. i < j \<longrightarrow> s ! j \<notin> set ts"
  shows "find_last_index s ts = int i"
proof -
  let ?A = "insert (- 1) (rfind s ` set ts)"
  have fin: "finite ?A" by simp
  have "s ! i \<in> set s" using i(1) by simp
  from rfind_in[OF this] obtain k where k: "k < length s" "rfind s (s ! i) = int k"
    "s ! k = s ! i" "\<forall>j<length s. k < j \<longrightarrow> s ! j \<noteq> s ! i" by blast
  have "k = i"
  proof (rule ccontr)
    assume "k \<noteq> i"
    then consider "k < i" | "i < k" by linarith
    then show False
    proof cases
      case 1 then show ?thesis using k(4) i(1) by blast
    next
      case 2 then show ?thesis using i(3) k(1,3) i(2) by auto
    qed
  qed
  then have mem: "int i \<in> ?A" using k(2) i(2) by force
  have ub: "a \<le> int i" if "a \<in> ?A" for a
  proof -
    from that consider "a = - 1" | c where "c \<in> set ts" "a = rfind s c" by auto
    then show ?thesis
    proof cases
      case 1 then show ?thesis by simp
    next
      case 2
      show ?thesis
      proof (cases "c \<in> set s")
        case True
        from rfind_in[OF this] obtain m where m: "m < length s" "rfind s c = int m" "s ! m = c"
          by blast
        then have "\<not> i < m" using i(3) 2(1) by auto
        then show ?thesis using 2(2) m(2) by simp
      next
        case False
        then show ?thesis using 2(2) rfind_notin by simp
      qed
    qed
  qed
  show ?thesis unfolding find_last_index_Max
    by (rule Max_eqI[OF fin ub mem])
qed

subsection \<open>The highest index of a terminator\<close>

lemma filter_rev_upt_Nil: "filter P (rev [0..<n]) = [] \<longleftrightarrow> (\<forall>i<n. \<not> P i)"
  by (auto simp: filter_empty_conv)

lemma filter_rev_upt_Cons:
  "filter P (rev [0..<n]) = i # is \<Longrightarrow> i < n \<and> P i \<and> (\<forall>j<n. i < j \<longrightarrow> \<not> P j)"
proof (induction n)
  case 0
  then show ?case by simp
next
  case (Suc n)
  show ?case
  proof (cases "P n")
    case True
    with Suc.prems have "i = n" by simp
    then show ?thesis using True by auto
  next
    case False
    with Suc.prems have "filter P (rev [0..<n]) = i # is" by simp
    from Suc.IH[OF this] show ?thesis using False by (auto simp: less_Suc_eq)
  qed
qed

lemma last_terminator_index_None:
  "last_terminator_index s nl = None \<longleftrightarrow> (\<forall>i<length s. s ! i \<notin> set (terminators nl))"
proof -
  let ?P = "\<lambda>i. s ! i \<in> set (terminators nl)"
  have "last_terminator_index s nl = None \<longleftrightarrow> filter ?P (rev [0..<length s]) = []"
    unfolding last_terminator_index_def by (simp split: list.splits)
  then show ?thesis by (simp only: filter_rev_upt_Nil)
qed

lemma last_terminator_index_Some:
  "last_terminator_index s nl = Some i \<Longrightarrow>
     i < length s \<and> s ! i \<in> set (terminators nl) \<and>
     (\<forall>j<length s. i < j \<longrightarrow> s ! j \<notin> set (terminators nl))"
  unfolding last_terminator_index_def
  by (auto split: list.splits dest: filter_rev_upt_Cons)

lemma last_terminator_index_SomeI:
  assumes "i < length s" "s ! i \<in> set (terminators nl)"
    "\<forall>j<length s. i < j \<longrightarrow> s ! j \<notin> set (terminators nl)"
  shows "last_terminator_index s nl = Some i"
proof (cases "last_terminator_index s nl")
  case None
  then show ?thesis using assms(1,2) by (simp add: last_terminator_index_None)
next
  case (Some k)
  from last_terminator_index_Some[OF this] assms have "k = i"
    by (metis linorder_neqE_nat)
  then show ?thesis using Some by simp
qed

subsection \<open>The code against the specification's reading\<close>

lemma trim_refines: "trim_to_end_sentence s nl = trim_spec s nl"
proof (cases "last_terminator_index s nl")
  case None
  then have "\<forall>c\<in>set (terminators nl). c \<notin> set s"
    by (auto simp: last_terminator_index_None in_set_conv_nth)
  then have "find_last_index s (terminators nl) = - 1" by (rule find_last_index_none)
  then show ?thesis using None by (simp add: trim_to_end_sentence_def trim_spec_def)
next
  case (Some i)
  from last_terminator_index_Some[OF this]
  have "find_last_index s (terminators nl) = int i" by (intro find_last_index_some) auto
  moreover have "nat (int i + 1) = Suc i" by simp
  ultimately show ?thesis using Some by (simp add: trim_to_end_sentence_def trim_spec_def)
qed

lemma trim_split:
  assumes "t \<in> set (terminators nl)" "\<forall>c\<in>set r. c \<notin> set (terminators nl)"
  shows "trim_to_end_sentence (p @ t # r) nl = rstrip (p @ [t])"
proof -
  have "last_terminator_index (p @ t # r) nl = Some (length p)"
  proof (rule last_terminator_index_SomeI)
    show "\<forall>j<length (p @ t # r). length p < j \<longrightarrow> (p @ t # r) ! j \<notin> set (terminators nl)"
      using assms(2) by (auto simp: nth_append nth_Cons split: nat.splits)
  qed (use assms(1) in auto)
  then show ?thesis by (simp add: trim_refines trim_spec_def)
qed

lemma trim_hello: "trim_to_end_sentence (ascii ''Hello. World'') False = ascii ''Hello.''"
proof -
  have "ascii ''Hello. World'' = ascii ''Hello'' @ 46 # ascii '' World''"
    by (simp add: ascii_def)
  moreover have "trim_to_end_sentence (ascii ''Hello'' @ 46 # ascii '' World'') False
                 = rstrip (ascii ''Hello'' @ [46])"
    by (rule trim_split) (simp_all add: terminators_def punctuation_def ascii_def)
  moreover have "rstrip (ascii ''Hello'' @ [46]) = ascii ''Hello.''"
    by (simp add: rstrip_def isspace_def ascii_def)
  ultimately show ?thesis by simp
qed

lemma trim_a_b_c: "trim_to_end_sentence (ascii ''A? B! C'') False = ascii ''A? B!''"
proof -
  have "ascii ''A? B! C'' = ascii ''A? B'' @ 33 # ascii '' C''"
    by (simp add: ascii_def)
  moreover have "trim_to_end_sentence (ascii ''A? B'' @ 33 # ascii '' C'') False
                 = rstrip (ascii ''A? B'' @ [33])"
    by (rule trim_split) (simp_all add: terminators_def punctuation_def ascii_def)
  moreover have "rstrip (ascii ''A? B'' @ [33]) = ascii ''A? B!''"
    by (simp add: rstrip_def isspace_def ascii_def)
  ultimately show ?thesis by simp
qed

lemma trim_two_lines:
  "trim_to_end_sentence (ascii ''Line one'' @ [10] @ ascii ''Line two'') True = ascii ''Line one''"
proof -
  have "trim_to_end_sentence (ascii ''Line one'' @ 10 # ascii ''Line two'') True
        = rstrip (ascii ''Line one'' @ [10])"
    by (rule trim_split) (simp_all add: terminators_def punctuation_def ascii_def)
  moreover have "rstrip (ascii ''Line one'' @ [10]) = ascii ''Line one''"
    by (simp add: rstrip_def isspace_def ascii_def)
  ultimately show ?thesis by simp
qed

lemma trim_a_b_newline: "trim_to_end_sentence (ascii ''A. B'' @ [10]) True = ascii ''A. B''"
proof -
  have "trim_to_end_sentence (ascii ''A. B'' @ 10 # []) True = rstrip (ascii ''A. B'' @ [10])"
    by (rule trim_split) (simp_all add: terminators_def punctuation_def)
  moreover have "rstrip (ascii ''A. B'' @ [10]) = ascii ''A. B''"
    by (simp add: rstrip_def isspace_def ascii_def)
  ultimately show ?thesis by simp
qed

lemma trim_a_b: "trim_to_end_sentence (ascii ''A. B'') True = ascii ''A.''"
proof -
  have "ascii ''A. B'' = ascii ''A'' @ 46 # ascii '' B''"
    by (simp add: ascii_def)
  moreover have "trim_to_end_sentence (ascii ''A'' @ 46 # ascii '' B'') True = rstrip (ascii ''A'' @ [46])"
    by (rule trim_split) (simp_all add: terminators_def punctuation_def ascii_def)
  moreover have "rstrip (ascii ''A'' @ [46]) = ascii ''A.''"
    by (simp add: rstrip_def isspace_def ascii_def)
  ultimately show ?thesis by simp
qed

text \<open>
  C8, as the code has it: for every string and flag the trimmer returns what the
  specification's algorithm returns, the prefix through the highest index of a terminator
  with trailing white space removed, or the whole string with trailing white space removed
  when it holds no terminator; \<open>last_terminator_index\<close> is that highest index, and is
  \<open>None\<close> exactly when no terminator occurs. In particular \<open>"Hello. World"\<close> becomes \<open>"Hello."\<close>,
  \<open>"A? B! C"\<close> becomes \<open>"A? B!"\<close>, and \<open>"Line one\nLine two"\<close> with the newline flag becomes
  \<open>"Line one"\<close>.
\<close>

theorem trim_to_end_sentence_spec:
  "trim_to_end_sentence s include_newline = trim_spec s include_newline
   \<and> (last_terminator_index s include_newline = None \<longleftrightarrow>
        (\<forall>i<length s. s ! i \<notin> set (terminators include_newline)))
   \<and> (last_terminator_index s include_newline = Some i \<longleftrightarrow>
        i < length s \<and> s ! i \<in> set (terminators include_newline) \<and>
        (\<forall>j<length s. i < j \<longrightarrow> s ! j \<notin> set (terminators include_newline)))
   \<and> trim_to_end_sentence (ascii ''Hello. World'') False = ascii ''Hello.''
   \<and> trim_to_end_sentence (ascii ''A? B! C'') False = ascii ''A? B!''
   \<and> trim_to_end_sentence (ascii ''Line one'' @ [10] @ ascii ''Line two'') True = ascii ''Line one''"
proof -
  have "last_terminator_index s include_newline = Some i \<longleftrightarrow>
        i < length s \<and> s ! i \<in> set (terminators include_newline) \<and>
        (\<forall>j<length s. i < j \<longrightarrow> s ! j \<notin> set (terminators include_newline))"
    using last_terminator_index_Some[of s include_newline i]
      last_terminator_index_SomeI[of i s include_newline] by blast
  then show ?thesis
    using trim_refines[of s include_newline] last_terminator_index_None[of s include_newline]
      trim_hello trim_a_b_c trim_two_lines
    by simp
qed

text \<open>
  The theorem at the string \<open>"Hi. x"\<close>: the highest terminator is the full stop at index 2.
\<close>

theorem trim_to_end_sentence_spec_witness:
  "last_terminator_index [72, 105, 46, 32, 120] False = Some 2
   \<and> trim_to_end_sentence [72, 105, 46, 32, 120] False = [72, 105, 46]"
proof -
  have l: "last_terminator_index [72, 105, 46, 32, 120] False = Some 2"
    by (rule last_terminator_index_SomeI)
       (auto simp: terminators_def punctuation_def nth_Cons less_Suc_eq split: nat.splits)
  have "trim_spec [72, 105, 46, 32, 120] False = [72, 105, 46]"
    by (simp add: trim_spec_def l rstrip_def isspace_def)
  then show ?thesis
    using l trim_to_end_sentence_spec[of "[72, 105, 46, 32, 120]" False 2] by simp
qed

text \<open>
  C8 as the claim words it fails at its own second example: the exclamation mark is the
  last terminator of \<open>"A? B! C"\<close>, and the text after it is cut.
\<close>

theorem trim_keeps_full_string_counterexample:
  "trim_to_end_sentence (ascii ''A? B! C'') False \<noteq> ascii ''A? B! C''"
proof -
  have "trim_to_end_sentence (ascii ''A? B! C'') False = ascii ''A? B!''"
    by (rule trim_a_b_c)
  then show ?thesis by simp
qed

text \<open>
  C9, as the code has it: without the newline flag (the default, and the only way the
  handler calls the trimmer) trimming is idempotent.
\<close>

theorem trim_idempotent:
  "trim_to_end_sentence (trim_to_end_sentence s False) False = trim_to_end_sentence s False"
proof (cases "last_terminator_index s False")
  case None
  then have "\<forall>i<length s. s ! i \<notin> set (terminators False)"
    by (simp add: last_terminator_index_None)
  then have no: "\<forall>c\<in>set s. c \<notin> set (terminators False)"
    by (metis in_set_conv_nth)
  have "\<forall>c\<in>set (rstrip s). c \<notin> set (terminators False)"
    using no set_rstrip by blast
  then have "last_terminator_index (rstrip s) False = None"
    by (simp add: last_terminator_index_None)
  then show ?thesis using None
    by (simp add: trim_refines trim_spec_def rstrip_idem)
next
  case (Some i)
  from last_terminator_index_Some[OF this]
  have i: "i < length s" "s ! i \<in> set (terminators False)" by auto
  let ?p = "take (Suc i) s"
  have len: "length ?p = Suc i" using i(1) by simp
  have last: "last ?p = s ! i" using i(1) by (simp add: take_Suc_conv_app_nth)
  have "\<not> isspace (s ! i)" using i(2) punctuation_not_space by (simp add: terminators_def)
  then have strip: "rstrip ?p = ?p" using last len by (intro rstrip_last_nonspace) auto
  have "last_terminator_index ?p False = Some i"
    using i len by (intro last_terminator_index_SomeI) auto
  then have "trim_spec ?p False = rstrip (take (Suc i) ?p)" by (simp add: trim_spec_def)
  also have "\<dots> = ?p" using strip by simp
  finally show ?thesis using Some strip by (simp add: trim_refines trim_spec_def)
qed

text \<open>The theorem at \<open>"Hello. World"\<close>: both sides are \<open>"Hello."\<close>.\<close>

theorem trim_idempotent_witness:
  "trim_to_end_sentence (trim_to_end_sentence (ascii ''Hello. World'') False) False = ascii ''Hello.''"
  using trim_idempotent[of "ascii ''Hello. World''"] trim_hello by simp

text \<open>
  C9 as the claim words it, for either value of the flag, fails with the newline flag set:
  \<open>"A. B\n"\<close> is cut at the newline, which is then removed as white space, leaving
  \<open>"A. B"\<close>; trimming that again cuts at the full stop.
\<close>

theorem trim_newline_not_idempotent_counterexample:
  "trim_to_end_sentence (trim_to_end_sentence (ascii ''A. B'' @ [10]) True) True
     \<noteq> trim_to_end_sentence (ascii ''A. B'' @ [10]) True"
proof -
  have "trim_to_end_sentence (trim_to_end_sentence (ascii ''A. B'' @ [10]) True) True = ascii ''A.''"
    by (simp only: trim_a_b_newline trim_a_b)
  then show ?thesis by (simp add: trim_a_b_newline)
qed


section \<open>The stream re-framer\<close>

lemma stream_loop_unfinished:
  assumes "stream_chunk c" "\<not> has_finish_reason c"
  shows "stream_loop (Chunk c # rest) = content_delta c @ stream_loop rest"
  using assms
  by (auto simp: stream_chunk_def has_finish_reason_def first_choice_def content_delta_def
      chunk_data_def delta_event_def opt_json_def split: list.splits option.splits)

lemma stream_loop_finished:
  assumes "stream_chunk c" "has_finish_reason c"
  shows "stream_loop (Chunk c # rest) = content_delta c @ [Done]"
  using assms
  by (auto simp: stream_chunk_def has_finish_reason_def first_choice_def content_delta_def
      chunk_data_def delta_event_def opt_json_def split: list.splits option.splits)

lemma stream_loop_prefix:
  assumes "\<forall>c\<in>set pre. stream_chunk c \<and> \<not> has_finish_reason c"
  shows "stream_loop (map Chunk pre @ rest) = content_deltas pre @ stream_loop rest"
  using assms
  by (induction pre)
     (simp_all add: content_deltas_def stream_loop_unfinished del: stream_loop.simps(3))

lemma stream_loop_to_finish:
  assumes "\<forall>c\<in>set pre. stream_chunk c \<and> \<not> has_finish_reason c"
    and "stream_chunk c" "has_finish_reason c"
  shows "stream_loop (map Chunk pre @ Chunk c # rest) = content_deltas (pre @ [c]) @ [Done]"
  using stream_loop_prefix[OF assms(1), of "Chunk c # rest"] assms(2,3)
  by (simp add: stream_loop_finished content_deltas_def del: stream_loop.simps(3))

lemma stream_loop_to_error:
  assumes "\<forall>c\<in>set pre. stream_chunk c \<and> \<not> has_finish_reason c"
  shows "stream_loop (map Chunk pre @ Raise msg # rest) = content_deltas pre @ [stream_error msg]"
  using stream_loop_prefix[OF assms, of "Raise msg # rest"] by simp

lemma stream_error_not_Done: "stream_error msg \<noteq> Done"
  by (simp add: stream_error_def)

lemma Done_notin_content_deltas: "Done \<notin> set (content_deltas cs)"
  by (auto simp: content_deltas_def content_delta_def delta_event_def split: option.splits)

lemma chunk_a_unfinished: "stream_chunk chunk_a \<and> \<not> has_finish_reason chunk_a"
  by (simp add: chunk_a_def mk_chunk_def stream_chunk_def has_finish_reason_def first_choice_def)

lemma chunk_b_finished: "stream_chunk chunk_b \<and> has_finish_reason chunk_b"
  by (simp add: chunk_b_def mk_chunk_def stream_chunk_def has_finish_reason_def first_choice_def)

lemma content_deltas_a_b: "content_deltas [chunk_a, chunk_b] = [delta_a, delta_b]"
  by (simp add: content_deltas_def content_delta_def first_choice_def chunk_a_def chunk_b_def
      mk_chunk_def delta_event_def delta_a_def delta_b_def)

lemma stream_loop_a_b: "stream_loop [Chunk chunk_a, Chunk chunk_b] = [delta_a, delta_b, Done]"
  using stream_loop_to_finish[of "[chunk_a]" chunk_b "[]"] chunk_a_unfinished chunk_b_finished
  by (simp add: content_deltas_a_b del: stream_loop.simps(3))

text \<open>
  C7: on a sequence of chunks of the data model, the re-framer emits one content-delta event
  for every chunk whose delta content is present, up to and including the first chunk with
  a finish reason; there it emits the sentinel and stops, whatever the upstream would
  deliver afterwards. Without a finish reason anywhere it emits the content deltas of all
  chunks. A content-delta event is the \<open>delta_event\<close> of the specification: it carries the
  chunk's id, created and model, the object name, and one choice with index 0, the delta
  content and the finish reason. The two chunks \<open>{content: "a"}\<close>,
  \<open>{content: "b", finish_reason: "stop"}\<close> give exactly three events: the content delta
  for \<open>a\<close> with a null finish reason, the content delta for \<open>b\<close> with the finish reason
  \<open>stop\<close>, then the sentinel.
\<close>

theorem generate_stream_reframes:
  assumes "\<forall>c\<in>set pre. stream_chunk c \<and> \<not> has_finish_reason c"
  shows "(stream_chunk c \<and> has_finish_reason c
            \<and> create_stream up cl kwargs = map Chunk pre @ Chunk c # rest
          \<longrightarrow> generate_stream up cl kwargs = content_deltas (pre @ [c]) @ [Done])
       \<and> (create_stream up cl kwargs = map Chunk pre
          \<longrightarrow> generate_stream up cl kwargs = content_deltas pre)
       \<and> generate_stream example_upstream cl kwargs
           = [Data (JObj
            [(ascii ''id'', JStr (ascii ''chatcmpl-1'')),
             (ascii ''object'', JStr (ascii ''chat.completion.chunk'')),
             (ascii ''created'', JInt 0),
             (ascii ''model'', JStr (ascii ''gpt-3.5-turbo'')),
             (ascii ''choices'',
                JArr [JObj [(ascii ''index'', JInt 0),
                            (ascii ''delta'', JObj [(ascii ''content'', JStr (ascii ''a''))]),
                            (ascii ''finish_reason'', JNull)]])]),
              Data (JObj
            [(ascii ''id'', JStr (ascii ''chatcmpl-1'')),
             (ascii ''object'', JStr (ascii ''chat.completion.chunk'')),
             (ascii ''created'', JInt 0),
             (ascii ''model'', JStr (ascii ''gpt-3.5-turbo'')),
             (ascii ''choices'',
                JArr [JObj [(ascii ''index'', JInt 0),
                            (ascii ''delta'', JObj [(ascii ''content'', JStr (ascii ''b''))]),
                            (ascii ''finish_reason'', JStr (ascii ''stop''))]])]),
              Done]"
proof (intro conjI impI)
  assume "stream_chunk c \<and> has_finish_reason c
          \<and> create_stream up cl kwargs = map Chunk pre @ Chunk c # rest"
  then show "generate_stream up cl kwargs = content_deltas (pre @ [c]) @ [Done]"
    using stream_loop_to_finish[OF assms, of c rest] by (simp add: generate_stream_def)
next
  assume "create_stream up cl kwargs = map Chunk pre"
  then show "generate_stream up cl kwargs = content_deltas pre"
    using stream_loop_prefix[OF assms, of "[]"] by (simp add: generate_stream_def)
next
  have "generate_stream example_upstream cl kwargs = [delta_a, delta_b, Done]"
    by (simp add: generate_stream_def example_upstream_def stream_loop_a_b
        del: stream_loop.simps(3))
  then show "generate_stream example_upstream cl kwargs
           = [Data (JObj
            [(ascii ''id'', JStr (ascii ''chatcmpl-1'')),
             (ascii ''object'', JStr (ascii ''chat.completion.chunk'')),
             (ascii ''created'', JInt 0),
             (ascii ''model'', JStr (ascii ''gpt-3.5-turbo'')),
             (ascii ''choices'',
                JArr [JObj [(ascii ''index'', JInt 0),
                            (ascii ''delta'', JObj [(ascii ''content'', JStr (ascii ''a''))]),
                            (ascii ''finish_reason'', JNull)]])]),
              Data (JObj
            [(ascii ''id'', JStr (ascii ''chatcmpl-1'')),
             (ascii ''object'', JStr (ascii ''chat.completion.chunk'')),
             (ascii ''created'', JInt 0),
             (ascii ''model'', JStr (ascii ''gpt-3.5-turbo'')),
             (ascii ''choices'',
                JArr [JObj [(ascii ''index'', JInt 0),
                            (ascii ''delta'', JObj [(ascii ''content'', JStr (ascii ''b''))]),
                            (ascii ''finish_reason'', JStr (ascii ''stop''))]])]),
              Done]"
    by (simp add: delta_a_def delta_b_def)
qed

text \<open>
  The theorem at a stream that goes on after the finish reason with a further chunk and a
  failure: the three events are all that is emitted.
\<close>

theorem generate_stream_reframes_witness:
  "generate_stream trailing_upstream example_client (JObj []) = [delta_a, delta_b, Done]"
proof -
  have pre: "\<forall>c\<in>set [chunk_a]. stream_chunk c \<and> \<not> has_finish_reason c"
    using chunk_a_unfinished by simp
  have "create_stream trailing_upstream example_client (JObj [])
        = map Chunk [chunk_a] @ Chunk chunk_b # [Chunk chunk_a, Raise (ascii ''late'')]"
    by (simp add: trailing_upstream_def)
  then show ?thesis
    using generate_stream_reframes[OF pre, where c = chunk_b and up = trailing_upstream
        and cl = example_client and kwargs = "JObj []"
        and rest = "[Chunk chunk_a, Raise (ascii ''late'')]"]
      chunk_b_finished content_deltas_a_b
    by simp
qed

text \<open>
  C2, as the code has it: when the upstream delivers a chunk with a finish reason, the wire
  events end with the sentinel \<open>data: [DONE]\<close>; when the stream ends by a failure, the
  events end with the in-band error event and hold no sentinel.
\<close>

theorem stream_end_event:
  assumes "\<forall>c\<in>set pre. stream_chunk c \<and> \<not> has_finish_reason c"
  shows "(stream_chunk c \<and> has_finish_reason c
            \<and> create_stream up cl kwargs = map Chunk pre @ Chunk c # rest
          \<longrightarrow> generate_stream up cl kwargs \<noteq> [] \<and> last (generate_stream up cl kwargs) = Done)
       \<and> (create_stream up cl kwargs = map Chunk pre @ Raise msg # rest
          \<longrightarrow> generate_stream up cl kwargs = content_deltas pre @ [stream_error msg]
              \<and> stream_error msg \<noteq> Done
              \<and> Done \<notin> set (generate_stream up cl kwargs))"
proof (intro conjI impI)
  assume a: "stream_chunk c \<and> has_finish_reason c
             \<and> create_stream up cl kwargs = map Chunk pre @ Chunk c # rest"
  then have "generate_stream up cl kwargs = content_deltas (pre @ [c]) @ [Done]"
    using stream_loop_to_finish[OF assms, of c rest] by (simp add: generate_stream_def)
  then show "generate_stream up cl kwargs \<noteq> []" "last (generate_stream up cl kwargs) = Done"
    by simp_all
next
  assume "create_stream up cl kwargs = map Chunk pre @ Raise msg # rest"
  then have e: "generate_stream up cl kwargs = content_deltas pre @ [stream_error msg]"
    using stream_loop_to_error[OF assms, of msg rest] by (simp add: generate_stream_def)
  then show "generate_stream up cl kwargs = content_deltas pre @ [stream_error msg]" .
  show "stream_error msg \<noteq> Done" by (rule stream_error_not_Done)
  show "Done \<notin> set (generate_stream up cl kwargs)"
    using stream_error_not_Done[of msg] by (auto simp: e Done_notin_content_deltas)
qed

text \<open>
  The theorem at the stream of the two example chunks, which ends with the sentinel, and at
  a stream whose first step fails, which ends with the error event.
\<close>

theorem stream_end_event_witness:
  "last (generate_stream example_upstream example_client (JObj [])) = Done
   \<and> generate_stream failing_upstream example_client (JObj []) = [stream_error (ascii ''boom'')]"
proof -
  have pre: "\<forall>c\<in>set [chunk_a]. stream_chunk c \<and> \<not> has_finish_reason c"
    using chunk_a_unfinished by simp
  have nil: "\<forall>c\<in>set []. stream_chunk c \<and> \<not> has_finish_reason c"
    by simp
  have "create_stream example_upstream example_client (JObj [])
        = map Chunk [chunk_a] @ Chunk chunk_b # []"
    by (simp add: example_upstream_def)
  then have 1: "last (generate_stream example_upstream example_client (JObj [])) = Done"
    using stream_end_event[OF pre, where c = chunk_b and up = example_upstream
        and cl = example_client and kwargs = "JObj []" and rest = "[]"]
      chunk_b_finished by simp
  have "create_stream failing_upstream example_client (JObj [])
        = map Chunk [] @ Raise (ascii ''boom'') # []"
    by (simp add: failing_upstream_def)
  then have 2: "generate_stream failing_upstream example_client (JObj [])
                = [stream_error (ascii ''boom'')]"
    using stream_end_event[OF nil, where up = failing_upstream and cl = example_client
        and kwargs = "JObj []" and msg = "ascii ''boom''" and rest = "[]"]
    by (simp add: content_deltas_def)
  from 1 2 show ?thesis by simp
qed

text \<open>
  C2 as the claim words it fails when the stream ends by an error: the single event is the
  error event, and no sentinel follows it.
\<close>

theorem stream_error_no_sentinel_counterexample:
  "generate_stream failing_upstream example_client (JObj [])
     = [Data (JObj [(ascii ''error'', JStr (ascii ''request failed: boom''))])]
   \<and> last (generate_stream failing_upstream example_client (JObj [])) \<noteq> Done"
  by (simp add: generate_stream_def failing_upstream_def stream_error_def lower_def ascii_def)


section \<open>The completion handler\<close>

lemma seq_index_0 [simp]: "seq_index (x # xs) 0 = Inr x"
  by (simp add: seq_index_def)

lemma seq_index_Nil [simp]: "seq_index [] i = Inl IndexError"
  by (simp add: seq_index_def)

lemma seq_index_last: "xs \<noteq> [] \<Longrightarrow> seq_index xs (- 1) = Inr (last xs)"
proof -
  assume ne: "xs \<noteq> []"
  then have "nat (int (length xs) + - 1) = length xs - 1" by simp
  moreover have "Suc 0 \<le> length xs" using ne by (cases xs) simp_all
  ultimately show ?thesis using ne
    by (simp add: seq_index_def last_conv_nth)
qed

lemma map_of_dict_set: "map_of (dict_set d k v) = (map_of d)(k \<mapsto> v)"
  by (induction d k v rule: dict_set.induct) (auto simp: fun_eq_iff)

lemma test_request_body:
  assumes "map_of body (ascii ''messages'') = Some (JArr (JObj m # ms))"
    and "map_of m (ascii ''content'') = Some (JStr (ascii ''Just say TEST''))"
  shows "normal_operation_body cfg up now (JObj body)
           = ([], Inr (JsonReply 200 (canned_test cfg now)))"
proof -
  have "body \<noteq> []" using assms(1) by auto
  moreover have "is_test_request (JArr (JObj m # ms)) = Inr True"
    using assms(2) by (simp add: is_test_request_def)
  ultimately show ?thesis using assms(1)
    by (simp add: normal_operation_body_def)
qed

lemma canned_test_fields:
  "json_at (canned_test cfg now)
     [Key (ascii ''choices''), Index 0, Key (ascii ''message''), Key (ascii ''content'')]
     = Inr (JStr (ascii ''TEST''))"
  "json_at (canned_test cfg now) [Key (ascii ''usage''), Key (ascii ''prompt_tokens'')] = Inr (JInt 10)"
  "json_at (canned_test cfg now) [Key (ascii ''usage''), Key (ascii ''completion_tokens'')] = Inr (JInt 1)"
  "json_at (canned_test cfg now) [Key (ascii ''usage''), Key (ascii ''total_tokens'')] = Inr (JInt 11)"
  by (simp_all add: canned_test_def)

text \<open>
  C4: when the first message of the request has the content \<open>"Just say TEST"\<close>, the handler
  returns the canned completion, whose \<open>choices[0].message.content\<close> is \<open>"TEST"\<close> and whose
  usage is 10, 1 and 11 tokens. It does so for every configuration (prefill enabled or not,
  upstream key present or not), every provider and every other field of the request, and
  the request takes and releases the lock without any exchange with the provider.
\<close>

theorem test_request_canned:
  assumes "map_of body (ascii ''messages'') = Some (JArr (JObj m # ms))"
    and "map_of m (ascii ''content'') = Some (JStr (ascii ''Just say TEST''))"
  shows "normal_operation cfg up now (JObj body)
           = ([LockAcquire, LockRelease], Inr (JsonReply 200 (canned_test cfg now)))
       \<and> serve cfg up now (JObj body) = [LockAcquire, LockRelease]
       \<and> json_at (canned_test cfg now)
            [Key (ascii ''choices''), Index 0, Key (ascii ''message''), Key (ascii ''content'')]
            = Inr (JStr (ascii ''TEST''))
       \<and> json_at (canned_test cfg now) [Key (ascii ''usage''), Key (ascii ''prompt_tokens'')]
            = Inr (JInt 10)
       \<and> json_at (canned_test cfg now) [Key (ascii ''usage''), Key (ascii ''completion_tokens'')]
            = Inr (JInt 1)
       \<and> json_at (canned_test cfg now) [Key (ascii ''usage''), Key (ascii ''total_tokens'')]
            = Inr (JInt 11)"
  using test_request_body[OF assms] canned_test_fields
  by (simp add: normal_operation_def serve_def send_reply_def)

text \<open>
  The theorem at a streaming request with a second message, under a configuration with
  prefill enabled, against a provider that would fail.
\<close>

theorem test_request_canned_witness:
  "normal_operation prefill_config failing_upstream 1700000000
     (JObj [(ascii ''stream'', JBool True),
            (ascii ''messages'',
               JArr [JObj [(ascii ''role'', JStr (ascii ''system'')),
                           (ascii ''content'', JStr (ascii ''Just say TEST''))],
                     user_hi])])
   = ([LockAcquire, LockRelease], Inr (JsonReply 200 (canned_test prefill_config 1700000000)))"
proof -
  have 1: "map_of [(ascii ''stream'', JBool True),
                   (ascii ''messages'',
                      JArr [JObj [(ascii ''role'', JStr (ascii ''system'')),
                                  (ascii ''content'', JStr (ascii ''Just say TEST''))],
                            user_hi])] (ascii ''messages'')
           = Some (JArr (JObj [(ascii ''role'', JStr (ascii ''system'')),
                               (ascii ''content'', JStr (ascii ''Just say TEST''))] # [user_hi]))"
    by simp
  have 2: "map_of [(ascii ''role'', JStr (ascii ''system'')),
                   (ascii ''content'', JStr (ascii ''Just say TEST''))] (ascii ''content'')
           = Some (JStr (ascii ''Just say TEST''))"
    by simp
  from test_request_canned[OF 1 2, of prefill_config failing_upstream 1700000000]
  show ?thesis by simp
qed

text \<open>
  C5: with prefill enabled and a non-empty message list whose last message has a role, a last
  message of role \<open>user\<close> is followed by a new assistant message with the prefill text as
  its content; otherwise the content of the last message becomes its old content, a
  newline and the prefill text. The messages before the last are unchanged in both cases,
  and so are the other fields of the last message.
\<close>

theorem shape_messages_prefill:
  assumes "PREFILL_ENABLED cfg" "ms \<noteq> []" "last ms = JObj d"
    and "map_of d (ascii ''role'') = Some role"
  shows "(role = JStr (ascii ''user'') \<longrightarrow>
            shape_messages cfg (JArr ms)
              = Inr (JArr (ms @ [JObj [(ascii ''content'', JStr (ASSISTANT_PREFILL cfg)),
                                      (ascii ''role'', JStr (ascii ''assistant''))]])))
       \<and> (role \<noteq> JStr (ascii ''user'') \<and> map_of d (ascii ''content'') = Some (JStr old) \<longrightarrow>
            shape_messages cfg (JArr ms)
              = Inr (JArr (butlast ms @
                     [JObj (dict_set d (ascii ''content'')
                              (JStr (old @ [10] @ ASSISTANT_PREFILL cfg)))])))
       \<and> map_of (dict_set d (ascii ''content'') v) = (map_of d)(ascii ''content'' \<mapsto> v)"
  using assms
  by (simp add: shape_messages_def apply_prefill_def seq_index_last map_of_dict_set)

text \<open>
  The theorem at the two cases of the specification: the single message of role \<open>user\<close>, and
  a last message of role \<open>assistant\<close> with content \<open>"x"\<close>.
\<close>

theorem shape_messages_prefill_witness:
  "shape_messages prefill_config (JArr [user_hi])
     = Inr (JArr [user_hi,
                  JObj [(ascii ''content'', JStr (ascii ''Here is my response:'')),
                        (ascii ''role'', JStr (ascii ''assistant''))]])
   \<and> shape_messages prefill_config
       (JArr [user_hi, JObj [(ascii ''role'', JStr (ascii ''assistant'')),
                             (ascii ''content'', JStr (ascii ''x''))]])
     = Inr (JArr [user_hi,
                  JObj [(ascii ''role'', JStr (ascii ''assistant'')),
                        (ascii ''content'', JStr (ascii ''x'' @ [10] @ ascii ''Here is my response:''))]])"
proof -
  have en: "PREFILL_ENABLED prefill_config"
    by (simp add: prefill_config_def)
  have pf: "ASSISTANT_PREFILL prefill_config = ascii ''Here is my response:''"
    by (simp add: prefill_config_def example_config_def)
  have 1: "last [user_hi] = JObj [(ascii ''role'', JStr (ascii ''user'')),
                                  (ascii ''content'', JStr (ascii ''hi''))]"
    by (simp add: user_hi_def)
  have 2: "last [user_hi, JObj [(ascii ''role'', JStr (ascii ''assistant'')),
                                (ascii ''content'', JStr (ascii ''x''))]]
           = JObj [(ascii ''role'', JStr (ascii ''assistant'')),
                   (ascii ''content'', JStr (ascii ''x''))]"
    by simp
  from shape_messages_prefill[OF en _ 1, of "JStr (ascii ''user'')"]
  have a: "shape_messages prefill_config (JArr [user_hi])
           = Inr (JArr ([user_hi] @ [JObj [(ascii ''content'', JStr (ASSISTANT_PREFILL prefill_config)),
                                         (ascii ''role'', JStr (ascii ''assistant''))]]))"
    by simp
  from shape_messages_prefill[OF en _ 2, of "JStr (ascii ''assistant'')" "ascii ''x''"]
  have b: "shape_messages prefill_config
             (JArr [user_hi, JObj [(ascii ''role'', JStr (ascii ''assistant'')),
                                   (ascii ''content'', JStr (ascii ''x''))]])
           = Inr (JArr (butlast [user_hi, JObj [(ascii ''role'', JStr (ascii ''assistant'')),
                                               (ascii ''content'', JStr (ascii ''x''))]] @
                  [JObj (dict_set [(ascii ''role'', JStr (ascii ''assistant'')),
                                   (ascii ''content'', JStr (ascii ''x''))] (ascii ''content'')
                           (JStr (ascii ''x'' @ [10] @ ASSISTANT_PREFILL prefill_config)))]))"
    by simp
  from a b show ?thesis by (simp add: pf)
qed

text \<open>
  C3, as the code has it: the handler has no validation step apart from the test for an
  empty body. A non-empty JSON object without a \<open>messages\<close> field makes the subscript
  \<open>request.json["messages"]\<close> raise \<open>KeyError\<close>, and an empty \<open>messages\<close> list with prefill
  enabled and an upstream key configured makes \<open>messages[-1]\<close> raise \<open>IndexError\<close>; both
  leave the handler as exceptions, the lock being released. The empty JSON object is
  answered with status 400 and the body \<open>{"error": true}\<close>.
\<close>

theorem missing_messages_outcomes:
  "(body \<noteq> [] \<and> map_of body (ascii ''messages'') = None \<longrightarrow>
      normal_operation cfg up now (JObj body) = ([LockAcquire, LockRelease], Inl KeyError))
   \<and> (map_of body (ascii ''messages'') = Some (JArr []) \<and> PREFILL_ENABLED cfg
        \<and> truthy_opt (API_KEY cfg) \<longrightarrow>
      normal_operation cfg up now (JObj body) = ([LockAcquire, LockRelease], Inl IndexError))
   \<and> normal_operation cfg up now (JObj [])
       = ([LockAcquire, LockRelease], Inr (JsonReply 400 (JObj [(ascii ''error'', JBool True)])))"
proof (intro conjI impI)
  assume "body \<noteq> [] \<and> map_of body (ascii ''messages'') = None"
  then show "normal_operation cfg up now (JObj body) = ([LockAcquire, LockRelease], Inl KeyError)"
    by (simp add: normal_operation_def normal_operation_body_def)
next
  assume a: "map_of body (ascii ''messages'') = Some (JArr []) \<and> PREFILL_ENABLED cfg
             \<and> truthy_opt (API_KEY cfg)"
  then have "body \<noteq> []" by auto
  then show "normal_operation cfg up now (JObj body) = ([LockAcquire, LockRelease], Inl IndexError)"
    using a
    by (simp add: normal_operation_def normal_operation_body_def is_test_request_def
        shape_messages_def apply_prefill_def)
next
  show "normal_operation cfg up now (JObj [])
        = ([LockAcquire, LockRelease], Inr (JsonReply 400 (JObj [(ascii ''error'', JBool True)])))"
    by (simp add: normal_operation_def normal_operation_body_def)
qed

text \<open>
  The theorem at a body that only names a model, and at a body with an empty message list
  under the configuration with prefill enabled.
\<close>

theorem missing_messages_outcomes_witness:
  "normal_operation example_config example_upstream 0 (JObj [(ascii ''model'', JStr (ascii ''gpt-4''))])
     = ([LockAcquire, LockRelease], Inl KeyError)
   \<and> normal_operation prefill_config example_upstream 0 (JObj [(ascii ''messages'', JArr [])])
     = ([LockAcquire, LockRelease], Inl IndexError)"
proof -
  have k: "truthy_opt (API_KEY prefill_config)" "PREFILL_ENABLED prefill_config"
    by (simp_all add: prefill_config_def example_config_def)
  from missing_messages_outcomes[of "[(ascii ''model'', JStr (ascii ''gpt-4''))]"
      example_config example_upstream 0]
  have 1: "normal_operation example_config example_upstream 0
             (JObj [(ascii ''model'', JStr (ascii ''gpt-4''))])
           = ([LockAcquire, LockRelease], Inl KeyError)"
    by simp
  from missing_messages_outcomes[of "[(ascii ''messages'', JArr [])]"
      prefill_config example_upstream 0] k
  have 2: "normal_operation prefill_config example_upstream 0 (JObj [(ascii ''messages'', JArr [])])
           = ([LockAcquire, LockRelease], Inl IndexError)"
    by simp
  from 1 2 show ?thesis by simp
qed

text \<open>
  C3 as the claim words it fails: for a body without \<open>messages\<close> the handler returns no
  result at all, it raises \<open>KeyError\<close>.
\<close>

theorem missing_messages_uncaught_counterexample:
  "snd (normal_operation example_config example_upstream 0
          (JObj [(ascii ''model'', JStr (ascii ''gpt-4''))])) = Inl KeyError"
  by (simp add: normal_operation_def normal_operation_body_def)


section \<open>The authenticated entry point\<close>

lemma allowed_tokens_iff:
  "t \<in> allowed_tokens ls \<longleftrightarrow> t \<noteq> [] \<and> (\<exists>l\<in>set ls. t = strip l)"
  by (auto simp: allowed_tokens_def)

lemma strip_abc_newline: "strip (ascii ''abc'' @ [10]) = ascii ''abc''"
  by (simp add: strip_def lstrip_def rstrip_def isspace_def ascii_def)

lemma strip_blank: "strip [32, 10] = []"
  by (simp add: strip_def lstrip_def rstrip_def isspace_def)

lemma strip_xyz: "strip (ascii ''  xyz '' @ [10]) = ascii ''xyz''"
  by (simp add: strip_def lstrip_def rstrip_def isspace_def ascii_def)





text \<open>
  C10: the request goes on to the completion handler exactly when the \<open>Authorization\<close>
  header, taken as it is, equals the white-space-stripped text of some non-blank line of
  the allow-list file; no \<open>Bearer\<close> prefix is removed and no scheme is parsed. A request
  that does not go on has touched neither the lock nor the provider.
\<close>

theorem generate_verbatim_token:
  "(generate_checks tok wl = Inr None \<longleftrightarrow>
      (\<exists>h ls. tok = Some h \<and> wl = Inr ls \<and> (\<exists>l\<in>set ls. strip l \<noteq> [] \<and> h = strip l)))
   \<and> (generate_checks tok wl = Inr None \<longrightarrow>
        generate cfg up now tok wl rj = normal_operation cfg up now rj)
   \<and> (generate_checks tok wl \<noteq> Inr None \<longrightarrow>
        (\<exists>r. generate cfg up now tok wl rj = ([], Inr r))
        \<or> (\<exists>e. wl = Inl e \<and> e \<noteq> FileNotFoundError
                \<and> generate cfg up now tok wl rj = ([], Inl e)))"
proof -
  have iff: "generate_checks tok wl = Inr None \<longleftrightarrow>
          (\<exists>h ls. tok = Some h \<and> wl = Inr ls \<and> (\<exists>l\<in>set ls. strip l \<noteq> [] \<and> h = strip l))"
    by (cases tok; cases wl) (auto simp: generate_checks_def allowed_tokens_iff image_iff)
  have go: "generate_checks tok wl = Inr None \<longrightarrow>
        generate cfg up now tok wl rj = normal_operation cfg up now rj"
    by (simp add: generate_def)
  have stop: "generate_checks tok wl \<noteq> Inr None \<longrightarrow>
        (\<exists>r. generate cfg up now tok wl rj = ([], Inr r))
        \<or> (\<exists>e. wl = Inl e \<and> e \<noteq> FileNotFoundError
                \<and> generate cfg up now tok wl rj = ([], Inl e))"
    by (cases wl) (auto simp: generate_def generate_checks_def split: if_splits)
  from iff go stop show ?thesis by blast
qed

text \<open>
  The theorem at a file whose first line is \<open>abc\<close>: the header \<open>abc\<close> is admitted, the
  header \<open>Bearer abc\<close> is not.
\<close>

theorem generate_verbatim_token_witness:
  "generate_checks (Some (ascii ''abc''))
       (Inr [ascii ''abc'' @ [10], [32, 10], ascii ''  xyz '' @ [10]]) = Inr None
   \<and> generate_checks (Some (ascii ''Bearer abc''))
       (Inr [ascii ''abc'' @ [10], [32, 10], ascii ''  xyz '' @ [10]]) \<noteq> Inr None"
proof -
  let ?ls = "[ascii ''abc'' @ [10], [32, 10], ascii ''  xyz '' @ [10]]"
  have "\<exists>l\<in>set ?ls. strip l \<noteq> [] \<and> ascii ''abc'' = strip l"
    by (simp add: strip_abc_newline)
  then have 1: "generate_checks (Some (ascii ''abc'')) (Inr ?ls) = Inr None"
    using generate_verbatim_token[of "Some (ascii ''abc'')" "Inr ?ls"] by blast
  have "\<not> (\<exists>l\<in>set ?ls. strip l \<noteq> [] \<and> ascii ''Bearer abc'' = strip l)"
    by (simp add: strip_abc_newline strip_blank strip_xyz)
  then have 2: "generate_checks (Some (ascii ''Bearer abc'')) (Inr ?ls) \<noteq> Inr None"
    using generate_verbatim_token[of "Some (ascii ''Bearer abc'')" "Inr ?ls"] by blast
  from 1 2 show ?thesis by simp
qed

section \<open>The lock and the provider\<close>

lemma error_reply_not_stream: "error_reply msg \<noteq> StreamReply cl p"
  by (simp add: error_reply_def)

lemma stream_reply_body:
  assumes "snd (normal_operation_body cfg up now rj) = Inr (StreamReply cl p)"
  shows "fst (normal_operation_body cfg up now rj) = []"
  using assms
  by (auto simp: normal_operation_body_def Let_def error_reply_not_stream
      split: if_splits sum.splits json.splits bool.splits)

text \<open>
  Whenever the handler answers with a streamed response, it has released the lock before the
  provider is called: the call is the first step of the generator, which the server takes
  after the handler has returned.
\<close>

lemma stream_reply_after_release:
  assumes "snd (normal_operation cfg up now rj) = Inr (StreamReply cl p)"
  shows "serve cfg up now rj
           = [LockAcquire, LockRelease, UpstreamBegin]
             @ map Yield (generate_stream up cl p) @ [UpstreamEnd]"
proof -
  obtain evs res where b: "normal_operation_body cfg up now rj = (evs, res)" by force
  then have "res = Inr (StreamReply cl p)" using assms by (simp add: normal_operation_def)
  moreover have "evs = []" using stream_reply_body[of cfg up now rj cl p] b assms
    by (simp add: normal_operation_def)
  ultimately show ?thesis using b
    by (simp add: serve_def normal_operation_def send_reply_def)
qed

text \<open>A plain call, in contrast, begins and ends between the acquire and the release.\<close>

lemma plain_call_inside_lock:
  "serve example_config example_upstream 0 (JObj [(ascii ''messages'', JArr [user_hi])])
     = [LockAcquire, UpstreamBegin, UpstreamEnd, LockRelease]"
  by (simp add: serve_def normal_operation_def normal_operation_body_def user_hi_def
      is_test_request_def example_config_def shape_messages_def dict_get_def get_client_def
      send_reply_def example_upstream_def error_reply_def make_params_def)

lemma serve_streaming_request:
  "serve example_config example_upstream 0 streaming_request
     = [LockAcquire, LockRelease, UpstreamBegin, Yield delta_a, Yield delta_b, Yield Done,
        UpstreamEnd]"
proof -
  have "snd (normal_operation example_config example_upstream 0 streaming_request)
        = Inr (StreamReply example_client (make_params example_config
                 [(ascii ''messages'', JArr [user_hi]), (ascii ''stream'', JBool True)]
                 (JArr [user_hi])))"
    by (simp add: normal_operation_def normal_operation_body_def streaming_request_def
        user_hi_def is_test_request_def example_config_def shape_messages_def dict_get_def
        get_client_def example_client_def)
  from stream_reply_after_release[OF this] show ?thesis
    by (simp add: generate_stream_def example_upstream_def stream_loop_a_b
        del: stream_loop.simps(3))
qed

text \<open>
  C1 at a streaming request: the request releases the lock before its exchange with the
  provider begins, so the whole exchange, the draining of the stream included, runs without
  the lock. Two such requests can be scheduled as in \<open>two_streams\<close>: each thread performs
  exactly the events of its request, the lock is respected, and two exchanges with the
  provider are in flight at once.
\<close>

theorem streamed_call_outside_lock:
  "serve example_config example_upstream 0 streaming_request
     = [LockAcquire, LockRelease, UpstreamBegin, Yield delta_a, Yield delta_b, Yield Done,
        UpstreamEnd]
   \<and> thread_events 0 two_streams = serve example_config example_upstream 0 streaming_request
   \<and> thread_events 1 two_streams = serve example_config example_upstream 0 streaming_request
   \<and> replay None 0 0 two_streams = Some 2"
proof -
  have "thread_events 0 two_streams
        = [LockAcquire, LockRelease, UpstreamBegin, Yield delta_a, Yield delta_b, Yield Done,
           UpstreamEnd]"
    by (simp add: thread_events_def two_streams_def)
  moreover have "thread_events 1 two_streams
        = [LockAcquire, LockRelease, UpstreamBegin, Yield delta_a, Yield delta_b, Yield Done,
           UpstreamEnd]"
    by (simp add: thread_events_def two_streams_def)
  moreover have "replay None 0 0 two_streams = Some 2"
    by (simp add: two_streams_def)
  ultimately show ?thesis using serve_streaming_request by simp
qed


end
